theory Spec2Isabelle
  imports Main "HOL-Library.Word"
begin

section \<open>O3METER: hue to ozone scale conversion and pixel averaging\<close>

text \<open>
  A shallow embedding of the numeric core of \<^verbatim>\<open>O3METER.py\<close>: the class
  \<^verbatim>\<open>HueScale\<close>, the two computations of \<^verbatim>\<open>CalculationThread\<close>
  and the log writer \<^verbatim>\<open>MainWindow.logValue\<close>.  Python integers are
  \<^typ>\<open>int\<close>, the bytes of the image buffer are \<^typ>\<open>8 word\<close>, every
  exception of the source is a value of the type \<open>error\<close>.
\<close>

subsection \<open>Class HueScale\<close>

text \<open>
  \<^verbatim>\<open>
  def hueToScale(hue):
      if hue <= 60 :
          return abs(hue - 60)
      return abs(hue - 359) + 61

  def scaleToHue(scale):
      return HueScale.hueToScale(scale)
  \<close>
\<close>

definition hueToScale :: "int \<Rightarrow> int" where
  "hueToScale hue = (if hue \<le> 60 then \<bar>hue - 60\<bar> else \<bar>hue - 359\<bar> + 61)"

definition scaleToHue :: "int \<Rightarrow> int" where
  "scaleToHue scale = hueToScale scale"

text \<open>The two hue ranges the ozone scale models: 0..60 and 240..359.\<close>

definition modelled_hue :: "int \<Rightarrow> bool" where
  "modelled_hue h = ((0 \<le> h \<and> h \<le> 60) \<or> (240 \<le> h \<and> h \<le> 359))"

subsection \<open>Exceptions and the conversions to int\<close>

text \<open>
  The exceptions the numeric code can raise.  \<^verbatim>\<open>int(float('nan'))\<close> raises
  ValueError, \<^verbatim>\<open>int(float('inf'))\<close> raises OverflowError, and the true division
  of two Python integers raises ZeroDivisionError on a zero divisor.
\<close>

datatype error = ZeroDivisionError | ValueError | OverflowError

text \<open>
  The quotient truncated toward zero, as \<^verbatim>\<open>int(...)\<close> truncates a float.  The
  floats of the source hold whole numbers (sums of bytes, products of coordinates);
  below \<open>2 ^ 53\<close> they are exact and the truncated float quotient is the truncated
  exact quotient, which is what the model computes.
\<close>

definition trunc_quot :: "int \<Rightarrow> int \<Rightarrow> int" where
  "trunc_quot a b = sgn a * sgn b * (\<bar>a\<bar> div \<bar>b\<bar>)"

text \<open>
  \<^verbatim>\<open>int((a) / b)\<close> on Python integers: ZeroDivisionError when \<open>b = 0\<close>.
\<close>

definition py_int_truediv :: "int \<Rightarrow> int \<Rightarrow> error + int" where
  "py_int_truediv a b = (if b = 0 then Inl ZeroDivisionError else Inr (trunc_quot a b))"

text \<open>
  \<^verbatim>\<open>int(numpy.asscalar(s / n))\<close> for a numpy float \<open>s\<close>, where
  \<^verbatim>\<open>asscalar\<close> gives the Python float of a numpy scalar: numpy divides by zero
  without raising (the quotient is nan for \<open>0 / 0\<close>, an infinity otherwise) and
  \<^verbatim>\<open>int\<close> raises on the result.
\<close>

definition np_quot_int :: "int \<Rightarrow> int \<Rightarrow> error + int" where
  "np_quot_int s n =
     (if n = 0 then (if s = 0 then Inl ValueError else Inl OverflowError)
      else Inr (trunc_quot s n))"

subsection \<open>The image buffer and the numpy operations\<close>

text \<open>
  \<^verbatim>\<open>setImage\<close> converts the image to format 4 (32-bit RGB) and reshapes its
  bytes to \<open>(height, width, 4)\<close>: channel 0 is blue, 1 is green, 2 is red, 3 is
  unused.  A pixel is the record of its four bytes, the buffer the list of its rows.
\<close>

record pixel =
  blue :: "8 word"
  green :: "8 word"
  red :: "8 word"
  alpha :: "8 word"

type_synonym image = "pixel list list"

definition np_fmax :: "8 word list \<Rightarrow> 8 word list \<Rightarrow> 8 word list" where
  "np_fmax xs ys = map2 max xs ys"

definition np_zeros :: "nat \<Rightarrow> int list" where
  "np_zeros n = replicate n 0"

text \<open>\<^verbatim>\<open>numpy.where(cond, x, y)\<close> of a byte array and a float array is a float array.\<close>

definition np_where :: "bool list \<Rightarrow> 8 word list \<Rightarrow> int list \<Rightarrow> int list" where
  "np_where cond xs ys = map (\<lambda>(c, v, z). if c then uint v else z) (zip cond (zip xs ys))"

definition np_count_nonzero :: "int list \<Rightarrow> int" where
  "np_count_nonzero vs = int (length (filter (\<lambda>v. v \<noteq> 0) vs))"

definition np_sum :: "int list \<Rightarrow> int" where
  "np_sum vs = sum_list vs"

text \<open>
  \<^verbatim>\<open>int(numpy.asscalar(a.mean()))\<close> of a byte array: the mean of an empty array is
  nan, on which \<^verbatim>\<open>int\<close> raises ValueError.
\<close>

definition np_mean_int :: "8 word list \<Rightarrow> error + int" where
  "np_mean_int vs = np_quot_int (sum_list (map uint vs)) (int (length vs))"

text \<open>
  A slice \<^verbatim>\<open>a[start:stop]\<close>: a negative index counts from the end, and both
  indices are clipped to the length.
\<close>

definition py_slice :: "int \<Rightarrow> int \<Rightarrow> 'a list \<Rightarrow> 'a list" where
  "py_slice start stop xs =
     (let n = int (length xs);
          lo = (if start < 0 then max (start + n) 0 else min start n);
          hi = (if stop < 0 then max (stop + n) 0 else min stop n)
      in take (nat (hi - lo)) (drop (nat lo) xs))"

subsection \<open>Hue extraction\<close>

text \<open>
  The hue of the mean colour is read with Qt's \<^verbatim>\<open>QColor(r, g, b).hue()\<close>, which
  is a library call and not code of this program.  Qt returns \<open>-1\<close> for an
  achromatic colour: a valid colour (every channel in 0..255) whose three channels are
  equal.  For every other triple the value is the parameter \<open>qhue\<close>; no property
  below depends on it.
\<close>

definition QColor_hue :: "(int \<Rightarrow> int \<Rightarrow> int \<Rightarrow> int) \<Rightarrow> int \<Rightarrow> int \<Rightarrow> int \<Rightarrow> int" where
  "QColor_hue qhue r g b =
     (if 0 \<le> r \<and> r \<le> 255 \<and> r = g \<and> g = b then - 1 else qhue r g b)"

subsection \<open>CalculationThread.computeAll\<close>

text \<open>
  The selection of \<^verbatim>\<open>computeAll\<close>: the three arrays of selected channel
  values and the divisor \<open>nvals\<close>.
  \<^verbatim>\<open>
  redPixels = self.arr[:, :, 2].reshape(-1)
  greenPixels = self.arr[:, :, 1].reshape(-1)
  bluePixels = self.arr[:, :, 0].reshape(-1)
  nps = redPixels.size
  values_t = numpy.fmax(redPixels, greenPixels)
  values = numpy.fmax(values_t, bluePixels)
  rvals = numpy.where(values < 150, redPixels, numpy.zeros(nps))
  gvals = numpy.where(values < 150, greenPixels, numpy.zeros(nps))
  bvals = numpy.where(values < 150, bluePixels, numpy.zeros(nps))
  nvals = numpy.count_nonzero(rvals)
  if nvals < 100 :
      rvals = numpy.where(values < 250, redPixels, numpy.zeros(nps))
      gvals = numpy.where(values < 250, greenPixels, numpy.zeros(nps))
      bvals = numpy.where(values < 250, bluePixels, numpy.zeros(nps))
      nvals = numpy.count_nonzero(rvals)
  \<close>
\<close>

definition selectAll :: "image \<Rightarrow> int list \<times> int list \<times> int list \<times> int" where
  "selectAll arr =
     (let redPixels = map red (concat arr);
          greenPixels = map green (concat arr);
          bluePixels = map blue (concat arr);
          nps = length redPixels;
          values_t = np_fmax redPixels greenPixels;
          values = np_fmax values_t bluePixels;
          rvals = np_where (map (\<lambda>v. v < 150) values) redPixels (np_zeros nps);
          gvals = np_where (map (\<lambda>v. v < 150) values) greenPixels (np_zeros nps);
          bvals = np_where (map (\<lambda>v. v < 150) values) bluePixels (np_zeros nps);
          nvals = np_count_nonzero rvals
      in if nvals < 100
         then (let rvals2 = np_where (map (\<lambda>v. v < 250) values) redPixels (np_zeros nps);
                   gvals2 = np_where (map (\<lambda>v. v < 250) values) greenPixels (np_zeros nps);
                   bvals2 = np_where (map (\<lambda>v. v < 250) values) bluePixels (np_zeros nps);
                   nvals2 = np_count_nonzero rvals2
               in (rvals2, gvals2, bvals2, nvals2))
         else (rvals, gvals, bvals, nvals))"

text \<open>
  \<^verbatim>\<open>
  rMean = int(numpy.asscalar(numpy.sum(rvals) / nvals))
  gMean = int(numpy.asscalar(numpy.sum(gvals) / nvals))
  bMean = int(numpy.asscalar(numpy.sum(bvals) / nvals))
  \<close>
  The three statements run in this order; the first that raises ends the computation.
\<close>

definition meanAll :: "image \<Rightarrow> error + (int \<times> int \<times> int)" where
  "meanAll arr =
     (case selectAll arr of (rvals, gvals, bvals, nvals) \<Rightarrow>
        (case np_quot_int (np_sum rvals) nvals of Inl e \<Rightarrow> Inl e | Inr rMean \<Rightarrow>
        (case np_quot_int (np_sum gvals) nvals of Inl e \<Rightarrow> Inl e | Inr gMean \<Rightarrow>
        (case np_quot_int (np_sum bvals) nvals of Inl e \<Rightarrow> Inl e | Inr bMean \<Rightarrow>
           Inr (rMean, gMean, bMean)))))"

text \<open>
  \<^verbatim>\<open>
  value = HueScale.hueToScale(QColor(rMean, gMean, bMean).hue())
  self.calculationFinished.emit(value)
  \<close>
  The result is the emitted value, or the exception that ended the computation before
  the emit.
\<close>

definition computeAll :: "(int \<Rightarrow> int \<Rightarrow> int \<Rightarrow> int) \<Rightarrow> image \<Rightarrow> error + int" where
  "computeAll qhue arr =
     (case meanAll arr of Inl e \<Rightarrow> Inl e
      | Inr (rMean, gMean, bMean) \<Rightarrow> Inr (hueToScale (QColor_hue qhue rMean gMean bMean)))"

text \<open>
  The words of the specification, for comparison with the code: the candidates are the
  pixels whose largest channel is below the threshold, the threshold is 150 unless fewer
  than 100 pixels are below it and 250 then, and the mean of a channel is its sum over
  the candidates divided by their number.
\<close>

definition maxc :: "pixel \<Rightarrow> 8 word" where
  "maxc p = max (max (red p) (green p)) (blue p)"

definition spec_candidates :: "8 word \<Rightarrow> image \<Rightarrow> pixel list" where
  "spec_candidates thr arr = filter (\<lambda>p. maxc p < thr) (concat arr)"

definition spec_threshold :: "image \<Rightarrow> 8 word" where
  "spec_threshold arr = (if length (spec_candidates 150 arr) < 100 then 250 else 150)"

definition spec_mean :: "pixel list \<Rightarrow> error + (int \<times> int \<times> int)" where
  "spec_mean ps =
     (if ps = [] then Inl ValueError
      else Inr (sum_list (map (\<lambda>p. uint (red p)) ps) div int (length ps),
                sum_list (map (\<lambda>p. uint (green p)) ps) div int (length ps),
                sum_list (map (\<lambda>p. uint (blue p)) ps) div int (length ps)))"

subsection \<open>CalculationThread.computeRegion\<close>

text \<open>The coordinates of a \<^verbatim>\<open>QPoint\<close> and the dimensions of a \<^verbatim>\<open>QSize\<close>.\<close>

record QPoint =
  qx :: int
  qy :: int

record QSize =
  qwidth :: int
  qheight :: int

text \<open>
  The arguments of a region computation: the size of the image, the size of the label
  that displays it, and the two corners of the selection in the label's coordinates.
\<close>

record selection =
  imgSize :: QSize
  lsize :: QSize
  origin :: QPoint
  destination :: QPoint

text \<open>
  \<^verbatim>\<open>
  xo = int((min(self.origin.x(), self.destination.x()) * self.imgSize.width()) / self.lsize.width())
  xd = int((max(self.origin.x(), self.destination.x()) * self.imgSize.width()) / self.lsize.width()) + 1
  yo = int((min(self.origin.y(), self.destination.y()) * self.imgSize.height()) / self.lsize.height())
  yd = int((max(self.origin.y(), self.destination.y()) * self.imgSize.height()) / self.lsize.height()) + 1
  \<close>
\<close>

definition regionBounds :: "selection \<Rightarrow> error + (int \<times> int \<times> int \<times> int)" where
  "regionBounds s =
     (case py_int_truediv (min (qx (origin s)) (qx (destination s)) * qwidth (imgSize s))
             (qwidth (lsize s)) of Inl e \<Rightarrow> Inl e | Inr xo \<Rightarrow>
     (case py_int_truediv (max (qx (origin s)) (qx (destination s)) * qwidth (imgSize s))
             (qwidth (lsize s)) of Inl e \<Rightarrow> Inl e | Inr xd \<Rightarrow>
     (case py_int_truediv (min (qy (origin s)) (qy (destination s)) * qheight (imgSize s))
             (qheight (lsize s)) of Inl e \<Rightarrow> Inl e | Inr yo \<Rightarrow>
     (case py_int_truediv (max (qy (origin s)) (qy (destination s)) * qheight (imgSize s))
             (qheight (lsize s)) of Inl e \<Rightarrow> Inl e | Inr yd \<Rightarrow>
        Inr (xo, xd + 1, yo, yd + 1)))))"

text \<open>The pixels of \<^verbatim>\<open>self.arr[yo:yd, xo:xd]\<close>, row by row.\<close>

definition regionPixels :: "image \<Rightarrow> int \<times> int \<times> int \<times> int \<Rightarrow> pixel list" where
  "regionPixels arr bounds =
     (case bounds of (xo, xd, yo, yd) \<Rightarrow> concat (map (py_slice xo xd) (py_slice yo yd arr)))"

text \<open>
  \<^verbatim>\<open>
  redPixels = self.arr[yo:yd, xo:xd, 2]
  greenPixels = self.arr[yo:yd, xo:xd, 1]
  bluePixels = self.arr[yo:yd, xo:xd, 0]
  rMean = int(numpy.asscalar(redPixels.mean()))
  gMean = int(numpy.asscalar(greenPixels.mean()))
  bMean = int(numpy.asscalar(bluePixels.mean()))
  \<close>
\<close>

definition meanRegion :: "image \<Rightarrow> selection \<Rightarrow> error + (int \<times> int \<times> int)" where
  "meanRegion arr s =
     (case regionBounds s of Inl e \<Rightarrow> Inl e | Inr bounds \<Rightarrow>
        (let redPixels = map red (regionPixels arr bounds);
             greenPixels = map green (regionPixels arr bounds);
             bluePixels = map blue (regionPixels arr bounds)
         in (case np_mean_int redPixels of Inl e \<Rightarrow> Inl e | Inr rMean \<Rightarrow>
            (case np_mean_int greenPixels of Inl e \<Rightarrow> Inl e | Inr gMean \<Rightarrow>
            (case np_mean_int bluePixels of Inl e \<Rightarrow> Inl e | Inr bMean \<Rightarrow>
               Inr (rMean, gMean, bMean))))))"

definition computeRegion :: "(int \<Rightarrow> int \<Rightarrow> int \<Rightarrow> int) \<Rightarrow> image \<Rightarrow> selection \<Rightarrow> error + int" where
  "computeRegion qhue arr s =
     (case meanRegion arr s of Inl e \<Rightarrow> Inl e
      | Inr (rMean, gMean, bMean) \<Rightarrow> Inr (hueToScale (QColor_hue qhue rMean gMean bMean)))"

text \<open>
  A thread holds the buffer and, for a region computation, the selection; \<open>None\<close> is
  the default \<^verbatim>\<open>imgSize=0\<close> of the constructor.
  \<^verbatim>\<open>
  def run(self):
      if self.imgSize == 0:
          self.computeAll()
      else:
          self.computeRegion()
  \<close>
\<close>

record CalculationThread =
  thread_arr :: image
  thread_sel :: "selection option"

definition run :: "(int \<Rightarrow> int \<Rightarrow> int \<Rightarrow> int) \<Rightarrow> CalculationThread \<Rightarrow> error + int" where
  "run qhue self =
     (case thread_sel self of None \<Rightarrow> computeAll qhue (thread_arr self)
      | Some s \<Rightarrow> computeRegion qhue (thread_arr self) s)"

text \<open>
  The pixels of the rectangle of columns \<open>xo..<xd\<close> and rows \<open>yo..<yd\<close> of the
  buffer, and the well-formed buffers: \<open>h\<close> rows of \<open>w\<close> pixels.
\<close>

definition rect_pixels :: "image \<Rightarrow> nat \<Rightarrow> nat \<Rightarrow> nat \<Rightarrow> nat \<Rightarrow> pixel list" where
  "rect_pixels arr xo xd yo yd = concat (map (\<lambda>j. map (\<lambda>i. arr ! j ! i) [xo..<xd]) [yo..<yd])"

definition has_shape :: "image \<Rightarrow> int \<Rightarrow> int \<Rightarrow> bool" where
  "has_shape arr w h = (int (length arr) = h \<and> list_all (\<lambda>row. int (length row) = w) arr)"

subsection \<open>MainWindow.logValue\<close>

text \<open>\<^verbatim>\<open>str(value)\<close> of an integer: its decimal digits, after a minus sign if negative.\<close>

definition digit_char :: "nat \<Rightarrow> char" where
  "digit_char d = ''0123456789'' ! d"

fun str_nat :: "nat \<Rightarrow> string" where
  "str_nat n = (if n < 10 then [digit_char n] else str_nat (n div 10) @ [digit_char (n mod 10)])"

declare str_nat.simps [simp del]

definition str_int :: "int \<Rightarrow> string" where
  "str_int v = (if v < 0 then CHR ''-'' # str_nat (nat (- v)) else str_nat (nat v))"

text \<open>
  The window holds the path of the current file; \<open>ozone_log\<close> is the content of the
  file \<^verbatim>\<open>ozone.log\<close>, which \<^verbatim>\<open>logValue\<close> opens in append mode.
  \<^verbatim>\<open>
  def logValue(self, value):
      f = open('ozone.log','a')
      f.write(self.currentFile + " " + str(value) + "\n")
      f.close()
  \<close>
\<close>

record MainWindow =
  currentFile :: string
  ozone_log :: string

definition logValue :: "MainWindow \<Rightarrow> int \<Rightarrow> MainWindow" where
  "logValue self v =
     self\<lparr>ozone_log := ozone_log self @ (currentFile self @ '' '' @ str_int v @ [CHR 0x0A])\<rparr>"

text \<open>
  One analysis: the thread runs, and the signal \<^verbatim>\<open>calculationFinished\<close>, which is
  connected to \<^verbatim>\<open>logValue\<close>, is emitted with the value when the computation
  reaches its emit.  A computation that raises emits nothing.
\<close>

definition analysis :: "(int \<Rightarrow> int \<Rightarrow> int \<Rightarrow> int) \<Rightarrow> MainWindow \<Rightarrow> CalculationThread \<Rightarrow> MainWindow" where
  "analysis qhue self thread =
     (case run qhue thread of Inl e \<Rightarrow> self | Inr v \<Rightarrow> logValue self v)"

subsection \<open>Auxiliary notions for the properties\<close>

text \<open>
  The pixels that \<^verbatim>\<open>numpy.count_nonzero(rvals)\<close> counts at a threshold: those
  below the threshold whose red value is not zero.  The threshold \<open>computeAll\<close>
  ends with is 250 when fewer than 100 pixels are counted at 150.
\<close>

definition counted :: "8 word \<Rightarrow> image \<Rightarrow> pixel list" where
  "counted thr arr = filter (\<lambda>p. maxc p < thr \<and> red p \<noteq> 0) (concat arr)"

definition code_threshold :: "image \<Rightarrow> 8 word" where
  "code_threshold arr = (if length (counted 150 arr) < 100 then 250 else 150)"

text \<open>
  The words of the specification for a region: the buffer index \<open>i\<close> is nominally
  selected by the display interval from \<open>lo\<close> to \<open>hi\<close> when the part of the
  display that shows it, from \<open>i * disp / img\<close> up to \<open>(i + 1) * disp / img\<close>,
  meets the interval.  \<open>img\<close> is the image's dimension, \<open>disp\<close> the label's.
\<close>

definition spec_nominal :: "int \<Rightarrow> int \<Rightarrow> int \<Rightarrow> int \<Rightarrow> int \<Rightarrow> bool" where
  "spec_nominal lo hi img disp i = (i * disp \<le> hi * img \<and> lo * img < (i + 1) * disp)"

text \<open>
  The number of newline characters of a text, that is the number of lines it ends; and
  the number that a string of decimal digits denotes, to state what \<open>str_int\<close>
  writes.
\<close>

definition line_count :: "string \<Rightarrow> nat" where
  "line_count s = length (filter (\<lambda>c. c = CHR 0x0A) s)"

definition digit_value :: "char \<Rightarrow> nat" where
  "digit_value c = of_char c - 48"

definition dec_value :: "string \<Rightarrow> nat" where
  "dec_value ds = foldl (\<lambda>a c. 10 * a + digit_value c) 0 ds"

section \<open>Properties of HueScale\<close>

lemma hueToScale_low: "hue \<le> 60 \<Longrightarrow> hueToScale hue = 60 - hue"
  by (simp add: hueToScale_def)

lemma hueToScale_high: "60 < hue \<Longrightarrow> hue \<le> 359 \<Longrightarrow> hueToScale hue = 420 - hue"
  by (simp add: hueToScale_def)

text \<open>
  Claim C1.  For every hue in 0..359, \<open>hueToScale hue\<close> is \<open>60 - hue\<close> when
  \<open>hue \<le> 60\<close> and \<open>420 - hue\<close> otherwise; at the boundaries
  \<open>hueToScale 0 = 60\<close>, \<open>hueToScale 60 = 0\<close>, \<open>hueToScale 240 = 180\<close>,
  \<open>hueToScale 359 = 61\<close>; and \<open>hueToScale\<close> is strictly decreasing on 0..60.
\<close>

theorem hueToScale_piecewise:
  fixes hue a b :: int
  shows "(0 \<le> hue \<and> hue \<le> 359 \<longrightarrow>
            hueToScale hue = (if hue \<le> 60 then 60 - hue else 420 - hue))
       \<and> hueToScale 0 = 60 \<and> hueToScale 60 = 0
       \<and> hueToScale 240 = 180 \<and> hueToScale 359 = 61
       \<and> (0 \<le> a \<and> a < b \<and> b \<le> 60 \<longrightarrow> hueToScale b < hueToScale a)"
proof -
  have formula: "0 \<le> hue \<and> hue \<le> 359 \<longrightarrow>
      hueToScale hue = (if hue \<le> 60 then 60 - hue else 420 - hue)"
    by (simp add: hueToScale_low hueToScale_high)
  have boundaries: "hueToScale 0 = 60" "hueToScale 60 = 0"
      "hueToScale 240 = 180" "hueToScale 359 = 61"
    by (simp_all add: hueToScale_def)
  have decreasing: "0 \<le> a \<and> a < b \<and> b \<le> 60 \<longrightarrow> hueToScale b < hueToScale a"
    by (simp add: hueToScale_low)
  from formula boundaries decreasing show ?thesis by blast
qed

theorem hueToScale_piecewise_witness:
  "hueToScale 300 = 120 \<and> hueToScale 45 = 15 \<and> hueToScale 45 < hueToScale 10"
  using hueToScale_piecewise [of 300 10 45] hueToScale_piecewise [of 45 10 45] by simp

text \<open>
  Claim C4, as stated: for every hue in 0..359, the gap 61..239 included, the scale
  value lies in 0..180.  It fails in the gap: hue 100 is mapped to 320.
\<close>

theorem hueToScale_gap_counterexample:
  "(0::int) \<le> 100 \<and> (100::int) \<le> 359 \<and> hueToScale 100 = 320 \<and> \<not> hueToScale 100 \<le> 180"
  by (simp add: hueToScale_def)

text \<open>
  Claim C4, amended: for every hue in the two modelled ranges 0..60 and 240..359 the
  scale value lies in 0..180; for a hue in the gap 61..239 the same formula gives
  \<open>420 - hue\<close>, which lies in 181..359.
\<close>

theorem hueToScale_range:
  fixes hue :: int
  shows "(modelled_hue hue \<longrightarrow> 0 \<le> hueToScale hue \<and> hueToScale hue \<le> 180)
       \<and> (61 \<le> hue \<and> hue \<le> 239 \<longrightarrow>
            hueToScale hue = 420 - hue \<and> 181 \<le> hueToScale hue \<and> hueToScale hue \<le> 359)"
proof (intro conjI impI)
  assume m: "modelled_hue hue"
  then consider "0 \<le> hue \<and> hue \<le> 60" | "240 \<le> hue \<and> hue \<le> 359"
    by (auto simp: modelled_hue_def)
  then show "0 \<le> hueToScale hue"
    by cases (simp_all add: hueToScale_def)
  from m consider "0 \<le> hue \<and> hue \<le> 60" | "240 \<le> hue \<and> hue \<le> 359"
    by (auto simp: modelled_hue_def)
  then show "hueToScale hue \<le> 180"
    by cases (simp_all add: hueToScale_def)
next
  assume gap: "61 \<le> hue \<and> hue \<le> 239"
  then show "hueToScale hue = 420 - hue"
    by (simp add: hueToScale_high)
  with gap show "181 \<le> hueToScale hue" "hueToScale hue \<le> 359"
    by simp_all
qed

theorem hueToScale_range_witness:
  "modelled_hue 240 \<and> hueToScale 240 = 180 \<and> 0 \<le> hueToScale 240 \<and> hueToScale 240 \<le> 180
   \<and> hueToScale 239 = 181"
  using hueToScale_range [of 240] hueToScale_range [of 239]
  by (simp add: modelled_hue_def hueToScale_def)

text \<open>
  Claim C5.  \<open>scaleToHue\<close> is the same function as \<open>hueToScale\<close>;
  \<open>scaleToHue (hueToScale h) = h\<close> for every \<open>h\<close> in 0..60 or 240..359; and
  \<open>scaleToHue\<close> maps every scale value in 0..180 to a hue in 0..60 or 240..359.
\<close>

theorem scaleToHue_inverse:
  fixes h s :: int
  shows "scaleToHue = hueToScale
       \<and> (modelled_hue h \<longrightarrow> scaleToHue (hueToScale h) = h)
       \<and> (0 \<le> s \<and> s \<le> 180 \<longrightarrow> modelled_hue (scaleToHue s))"
proof (intro conjI impI)
  show "scaleToHue = hueToScale"
    by (rule ext) (simp add: scaleToHue_def)
next
  assume "modelled_hue h"
  then consider "0 \<le> h \<and> h \<le> 60" | "240 \<le> h \<and> h \<le> 359"
    by (auto simp: modelled_hue_def)
  then show "scaleToHue (hueToScale h) = h"
    by cases (simp_all add: scaleToHue_def hueToScale_def)
next
  assume "0 \<le> s \<and> s \<le> 180"
  then show "modelled_hue (scaleToHue s)"
    by (auto simp: modelled_hue_def scaleToHue_def hueToScale_def)
qed

theorem scaleToHue_inverse_witness:
  "modelled_hue 300 \<and> scaleToHue (hueToScale 300) = 300 \<and> modelled_hue (scaleToHue 120)
   \<and> scaleToHue 120 = 300"
  using scaleToHue_inverse [of 300 120]
  by (simp add: modelled_hue_def scaleToHue_def hueToScale_def)

section \<open>The whole-image computation\<close>

lemma trunc_quot_nonneg: "0 \<le> a \<Longrightarrow> 0 < b \<Longrightarrow> trunc_quot a b = a div b"
  by (cases "a = 0") (simp_all add: trunc_quot_def)

lemma sum_uint_nonneg: "0 \<le> sum_list (map (\<lambda>p. uint (ch p :: 8 word)) ps)"
  by (induction ps) simp_all

text \<open>The three \<^verbatim>\<open>numpy.where\<close> arrays hold the channel of the pixels below the
  threshold and zero elsewhere.\<close>

lemma np_where_mask:
  "np_where (map (\<lambda>v. v < thr) (np_fmax (np_fmax (map red ps) (map green ps)) (map blue ps)))
      (map ch ps) (np_zeros (length (map red ps)))
   = map (\<lambda>p. if maxc p < thr then uint (ch p) else 0) ps"
  by (induction ps) (simp_all add: np_where_def np_fmax_def np_zeros_def maxc_def)

lemma count_mask:
  "np_count_nonzero (map (\<lambda>p. if maxc p < thr then uint (red p) else 0) ps)
   = int (length (filter (\<lambda>p. maxc p < thr \<and> red p \<noteq> 0) ps))"
  by (induction ps) (simp_all add: np_count_nonzero_def uint_0_iff)

lemma sum_mask:
  "sum_list (map (\<lambda>p. if maxc p < thr then uint (ch p) else 0) ps)
   = sum_list (map (\<lambda>p. uint (ch p)) (filter (\<lambda>p. maxc p < thr) ps))"
  by (induction ps) simp_all

lemma selectAll_eq:
  "selectAll arr =
     (map (\<lambda>p. if maxc p < code_threshold arr then uint (red p) else 0) (concat arr),
      map (\<lambda>p. if maxc p < code_threshold arr then uint (green p) else 0) (concat arr),
      map (\<lambda>p. if maxc p < code_threshold arr then uint (blue p) else 0) (concat arr),
      int (length (counted (code_threshold arr) arr)))"
  unfolding selectAll_def Let_def np_where_mask count_mask
  by (simp add: code_threshold_def counted_def)

lemma sum_red_zero:
  "filter (\<lambda>p. maxc p < thr \<and> red p \<noteq> 0) ps = [] \<Longrightarrow>
   sum_list (map (\<lambda>p. if maxc p < thr then uint (red p) else 0) ps) = 0"
  by (induction ps) (auto split: if_splits)

text \<open>
  What \<open>meanAll\<close> computes: each sum runs over every pixel below the final
  threshold, the divisor is the number of those whose red value is not zero, and the
  computation raises ValueError when that number is zero.
\<close>

lemma meanAll_eq:
  "meanAll arr =
     (let thr = code_threshold arr;
          n = int (length (counted thr arr));
          c = spec_candidates thr arr
      in if n = 0 then Inl ValueError
         else Inr (sum_list (map (\<lambda>p. uint (red p)) c) div n,
                   sum_list (map (\<lambda>p. uint (green p)) c) div n,
                   sum_list (map (\<lambda>p. uint (blue p)) c) div n))"
proof (cases "counted (code_threshold arr) arr = []")
  case True
  then have "np_sum (map (\<lambda>p. if maxc p < code_threshold arr then uint (red p) else 0)
      (concat arr)) = 0"
    by (simp add: np_sum_def counted_def sum_red_zero)
  with True show ?thesis
    by (simp add: meanAll_def selectAll_eq np_quot_int_def)
next
  case False
  then have n: "0 < int (length (counted (code_threshold arr) arr))" by simp
  show ?thesis
    using n False
    by (simp add: meanAll_def selectAll_eq np_quot_int_def np_sum_def sum_mask
        trunc_quot_nonneg sum_uint_nonneg spec_candidates_def Let_def)
qed

text \<open>A value is emitted exactly when the final divisor is not zero.\<close>

lemma computeAll_emits_iff:
  "(\<exists>v. computeAll qhue arr = Inr v) \<longleftrightarrow> counted (code_threshold arr) arr \<noteq> []"
  by (simp add: computeAll_def meanAll_eq Let_def)

lemma computeAll_raises:
  "counted (code_threshold arr) arr = [] \<Longrightarrow> computeAll qhue arr = Inl ValueError"
  by (simp add: computeAll_def meanAll_eq Let_def)

text \<open>
  Where no pixel below 250 has a red value of zero, the code computes the mean the
  specification describes.
\<close>

lemma counted_candidates:
  "\<forall>p\<in>set (concat arr). maxc p < 250 \<longrightarrow> red p \<noteq> 0 \<Longrightarrow> thr \<le> 250 \<Longrightarrow>
   counted thr arr = spec_candidates thr arr"
  unfolding counted_def spec_candidates_def
  by (rule filter_cong) auto

lemma meanAll_refines_spec:
  assumes "\<forall>p\<in>set (concat arr). maxc p < 250 \<longrightarrow> red p \<noteq> 0"
  shows "meanAll arr = spec_mean (spec_candidates (spec_threshold arr) arr)"
proof -
  have c150: "counted 150 arr = spec_candidates 150 arr"
    using assms by (rule counted_candidates) simp
  have c250: "counted 250 arr = spec_candidates 250 arr"
    using assms by (rule counted_candidates) simp
  have thr: "code_threshold arr = spec_threshold arr"
    by (simp add: code_threshold_def spec_threshold_def c150)
  have "counted (spec_threshold arr) arr = spec_candidates (spec_threshold arr) arr"
    using c150 c250 by (simp add: spec_threshold_def)
  then show ?thesis
    by (simp add: meanAll_eq thr Let_def spec_mean_def)
qed

text \<open>
  Claim C2.  In whole-image mode the candidates are exactly the pixels whose largest
  channel is below the active threshold, and the result is the triple of the truncated
  means of red, green and blue over all candidates; pixels at or above the threshold
  contribute to neither the sums nor the divisor.

  The sums are as claimed (\<open>meanAll_eq\<close>), the divisor is not: it is the number of
  non-zero entries of \<open>rvals\<close>, so a candidate whose red value is zero adds to the
  sums and not to the divisor.  On 100 pixels \<open>(r, g, b) = (10, 10, 10)\<close> and 100
  pixels \<open>(0, 100, 0)\<close>, all of them candidates at the threshold 150, the divisor
  \<open>nvals\<close> is 100 and the code returns \<open>(10, 110, 10)\<close>; the means over the 200
  candidates are \<open>(5, 55, 5)\<close>.
\<close>

theorem computeAll_divisor_counts_red:
  "spec_threshold
      [replicate 100 \<lparr>blue = 10, green = 10, red = 10, alpha = 255\<rparr>
        @ replicate 100 \<lparr>blue = 0, green = 100, red = 0, alpha = 255\<rparr>] = 150
   \<and> length (spec_candidates 150
      [replicate 100 \<lparr>blue = 10, green = 10, red = 10, alpha = 255\<rparr>
        @ replicate 100 \<lparr>blue = 0, green = 100, red = 0, alpha = 255\<rparr>]) = 200
   \<and> spec_mean (spec_candidates 150
      [replicate 100 \<lparr>blue = 10, green = 10, red = 10, alpha = 255\<rparr>
        @ replicate 100 \<lparr>blue = 0, green = 100, red = 0, alpha = 255\<rparr>]) = Inr (5, 55, 5)
   \<and> snd (snd (snd (selectAll
      [replicate 100 \<lparr>blue = 10, green = 10, red = 10, alpha = 255\<rparr>
        @ replicate 100 \<lparr>blue = 0, green = 100, red = 0, alpha = 255\<rparr>]))) = 100
   \<and> meanAll
      [replicate 100 \<lparr>blue = 10, green = 10, red = 10, alpha = 255\<rparr>
        @ replicate 100 \<lparr>blue = 0, green = 100, red = 0, alpha = 255\<rparr>] = Inr (10, 110, 10)"
  by code_simp

text \<open>
  Claim C3.  In whole-image mode, when fewer than 100 pixels have their largest channel
  below 150 the selection and the mean are recomputed with the threshold 250, and when
  at least 100 have, no relaxation occurs.

  The code compares the count of non-zero red entries with 100, not the number of
  candidates.  On 100 candidates \<open>(0, 100, 0)\<close> and one pixel \<open>(200, 10, 10)\<close> the
  count is zero, the threshold is relaxed although 100 candidates are below 150, and the
  pixel of largest channel 200 becomes the only counted one: the code returns
  \<open>(200, 10010, 10)\<close> where the mean at the threshold 150 is \<open>(0, 100, 0)\<close>.
\<close>

theorem computeAll_relaxes_on_red_count:
  "length (spec_candidates 150
      [replicate 100 \<lparr>blue = 0, green = 100, red = 0, alpha = 255\<rparr>
        @ [\<lparr>blue = 10, green = 10, red = 200, alpha = 255\<rparr>]]) = 100
   \<and> spec_threshold
      [replicate 100 \<lparr>blue = 0, green = 100, red = 0, alpha = 255\<rparr>
        @ [\<lparr>blue = 10, green = 10, red = 200, alpha = 255\<rparr>]] = 150
   \<and> spec_mean (spec_candidates 150
      [replicate 100 \<lparr>blue = 0, green = 100, red = 0, alpha = 255\<rparr>
        @ [\<lparr>blue = 10, green = 10, red = 200, alpha = 255\<rparr>]]) = Inr (0, 100, 0)
   \<and> snd (snd (snd (selectAll
      [replicate 100 \<lparr>blue = 0, green = 100, red = 0, alpha = 255\<rparr>
        @ [\<lparr>blue = 10, green = 10, red = 200, alpha = 255\<rparr>]]))) = 1
   \<and> meanAll
      [replicate 100 \<lparr>blue = 0, green = 100, red = 0, alpha = 255\<rparr>
        @ [\<lparr>blue = 10, green = 10, red = 200, alpha = 255\<rparr>]] = Inr (200, 10010, 10)"
  by code_simp

text \<open>
  Claim C6.  In whole-image mode a scale value is produced if and only if the final
  number of candidates is not zero; when it is zero the mean is undefined and no value
  is emitted.

  The code emits exactly when its divisor is not zero (\<open>computeAll_emits_iff\<close>), and
  the divisor counts only the candidates whose red value is not zero.  On the single
  candidate \<open>(0, 100, 0)\<close> there is one candidate at either threshold, and the
  computation raises ValueError before the emit.
\<close>

theorem computeAll_fails_with_candidates:
  "spec_candidates (spec_threshold [[\<lparr>blue = 0, green = 100, red = 0, alpha = 255\<rparr>]])
      [[\<lparr>blue = 0, green = 100, red = 0, alpha = 255\<rparr>]]
     = [\<lparr>blue = 0, green = 100, red = 0, alpha = 255\<rparr>]
   \<and> meanAll [[\<lparr>blue = 0, green = 100, red = 0, alpha = 255\<rparr>]] = Inl ValueError
   \<and> computeAll qhue [[\<lparr>blue = 0, green = 100, red = 0, alpha = 255\<rparr>]] = Inl ValueError"
  by (simp add: computeAll_def meanAll_def selectAll_def np_fmax_def np_zeros_def np_where_def
      np_count_nonzero_def np_sum_def np_quot_int_def spec_candidates_def spec_threshold_def
      maxc_def Let_def)

section \<open>The region computation\<close>

lemma take_drop_nth: "take k (drop m xs) = map ((!) xs) [m..<min (m + k) (length xs)]"
  by (auto simp: list_eq_iff_nth_eq)

lemma py_slice_nonneg:
  assumes "0 \<le> lo" "0 \<le> hi"
  shows "py_slice lo hi xs = map ((!) xs) [nat lo..<min (nat hi) (length xs)]"
proof -
  let ?n = "int (length xs)"
  have unfolded: "py_slice lo hi xs
      = take (nat (min hi ?n - min lo ?n)) (drop (nat (min lo ?n)) xs)"
    using assms by (simp add: py_slice_def Let_def)
  show ?thesis
  proof (cases "nat lo \<le> min (nat hi) (length xs)")
    case True
    with assms have "min (nat (min lo ?n) + nat (min hi ?n - min lo ?n)) (length xs)
        = min (nat hi) (length xs)"
      by arith
    moreover from True assms have "nat (min lo ?n) = nat lo"
      by arith
    ultimately show ?thesis
      unfolding unfolded take_drop_nth by simp
  next
    case False
    with assms have "nat (min hi ?n - min lo ?n) = 0 \<or> length xs \<le> nat (min lo ?n)"
      by arith
    then have empty_take: "take (nat (min hi ?n - min lo ?n)) (drop (nat (min lo ?n)) xs) = []"
      by auto
    from False have "min (nat hi) (length xs) \<le> nat lo"
      by arith
    then have empty_range: "[nat lo..<min (nat hi) (length xs)] = []"
      by simp
    show ?thesis
      unfolding unfolded empty_take empty_range by simp
  qed
qed

lemma regionPixels_rect:
  assumes shape: "has_shape arr w h"
    and nonneg: "0 \<le> xo" "0 \<le> xd" "0 \<le> yo" "0 \<le> yd"
  shows "regionPixels arr (xo, xd, yo, yd)
       = rect_pixels arr (nat xo) (min (nat xd) (nat w)) (nat yo) (min (nat yd) (nat h))"
proof -
  from shape have len: "length arr = nat h" and rows: "\<And>j. j < length arr \<Longrightarrow> length (arr ! j) = nat w"
    by (auto simp: has_shape_def list_all_length)
  have "map (py_slice xo xd) (py_slice yo yd arr)
      = map (\<lambda>j. py_slice xo xd (arr ! j)) [nat yo..<min (nat yd) (length arr)]"
    using nonneg by (simp add: py_slice_nonneg comp_def)
  also have "\<dots> = map (\<lambda>j. map (\<lambda>i. arr ! j ! i) [nat xo..<min (nat xd) (nat w)]) [nat yo..<min (nat yd) (length arr)]"
    using nonneg rows by (intro map_cong refl) (simp add: py_slice_nonneg)
  finally show ?thesis
    by (simp add: regionPixels_def rect_pixels_def len)
qed

lemma np_mean_int_eq:
  "np_mean_int (map ch ps) =
     (if ps = [] then Inl ValueError
      else Inr (sum_list (map (\<lambda>p. uint (ch p)) ps) div int (length ps)))"
  by (simp add: np_mean_int_def np_quot_int_def comp_def trunc_quot_nonneg sum_uint_nonneg)

lemma meanRegion_eq:
  "regionBounds s = Inr bounds \<Longrightarrow> meanRegion arr s = spec_mean (regionPixels arr bounds)"
  by (simp add: meanRegion_def Let_def np_mean_int_eq spec_mean_def)

lemma regionBounds_nonneg:
  assumes "0 \<le> qx (origin s)" "0 \<le> qx (destination s)" "0 \<le> qy (origin s)" "0 \<le> qy (destination s)"
    and "0 \<le> qwidth (imgSize s)" "0 \<le> qheight (imgSize s)"
    and "0 < qwidth (lsize s)" "0 < qheight (lsize s)"
  shows "regionBounds s =
     Inr (min (qx (origin s)) (qx (destination s)) * qwidth (imgSize s) div qwidth (lsize s),
          max (qx (origin s)) (qx (destination s)) * qwidth (imgSize s) div qwidth (lsize s) + 1,
          min (qy (origin s)) (qy (destination s)) * qheight (imgSize s) div qheight (lsize s),
          max (qy (origin s)) (qy (destination s)) * qheight (imgSize s) div qheight (lsize s) + 1)"
  using assms by (simp add: regionBounds_def py_int_truediv_def trunc_quot_nonneg)

lemma div_le_of_less_mult:
  fixes a i disp :: int
  assumes "0 < disp" "a < (i + 1) * disp"
  shows "a div disp \<le> i"
proof (rule ccontr)
  assume "\<not> a div disp \<le> i"
  then have "i + 1 \<le> a div disp" by simp
  with \<open>0 < disp\<close> have "(i + 1) * disp \<le> a div disp * disp"
    by (simp add: mult_right_mono)
  also from \<open>0 < disp\<close> have "a div disp * disp \<le> a"
    by (simp add: minus_mod_eq_div_mult [symmetric])
  finally show False using assms(2) by simp
qed

lemma nominal_covered:
  assumes "0 < disp" "spec_nominal lo hi img disp i"
  shows "lo * img div disp \<le> i \<and> i < hi * img div disp + 1"
proof
  from assms have "lo * img < (i + 1) * disp" by (simp add: spec_nominal_def)
  with \<open>0 < disp\<close> show "lo * img div disp \<le> i" by (rule div_le_of_less_mult)
next
  from assms have "i * disp \<le> hi * img" by (simp add: spec_nominal_def)
  with \<open>0 < disp\<close> have "i * disp div disp \<le> hi * img div disp" by (intro zdiv_mono1)
  with \<open>0 < disp\<close> show "i < hi * img div disp + 1" by simp
qed

lemma rect_pixels_mem:
  "xo \<le> i \<Longrightarrow> i < xd \<Longrightarrow> yo \<le> j \<Longrightarrow> j < yd \<Longrightarrow>
   arr ! j ! i \<in> set (rect_pixels arr xo xd yo yd)"
  by (force simp: rect_pixels_def)

lemma nat_interval:
  fixes a b i w :: int
  assumes "0 \<le> a" "a \<le> i \<and> i < b" "i < w"
  shows "nat a \<le> nat i" "nat i < min (nat b) (nat w)"
  using assms by linarith+

lemma div_less_bound:
  fixes a w disp :: int
  assumes "0 \<le> a" "a < disp" "0 < w"
  shows "a * w div disp < w"
proof -
  from assms have "a * w < disp * w" by (simp add: mult_strict_right_mono)
  then have "a * w < ((w - 1) + 1) * disp" by (simp add: mult.commute)
  with assms have "a * w div disp \<le> w - 1" by (intro div_le_of_less_mult) simp_all
  then show ?thesis by simp
qed

text \<open>
  Where both corners of the selection have non-negative display coordinates, on positive
  image and display sizes, the code does what it sets out to do: the minimum corner is
  scaled and rounded down, the maximum corner scaled and extended by one pixel, every
  nominally selected pixel of the buffer lies in the mapped rectangle, and the result is
  the unfiltered truncated mean over every pixel of that rectangle, clipped to the
  buffer.  A maximum corner beyond the right or the bottom edge is clipped by the slice.
\<close>

lemma computeRegion_covers:
  assumes nonneg: "0 \<le> qx (origin s)" "0 \<le> qy (origin s)"
      "0 \<le> qx (destination s)" "0 \<le> qy (destination s)"
    and pos: "0 < qwidth (imgSize s)" "0 < qheight (imgSize s)"
      "0 < qwidth (lsize s)" "0 < qheight (lsize s)"
    and shape: "has_shape arr (qwidth (imgSize s)) (qheight (imgSize s))"
  shows "\<exists>xo xd yo yd.
      regionBounds s = Inr (xo, xd, yo, yd)
    \<and> xo = min (qx (origin s)) (qx (destination s)) * qwidth (imgSize s) div qwidth (lsize s)
    \<and> xd = max (qx (origin s)) (qx (destination s)) * qwidth (imgSize s) div qwidth (lsize s) + 1
    \<and> yo = min (qy (origin s)) (qy (destination s)) * qheight (imgSize s) div qheight (lsize s)
    \<and> yd = max (qy (origin s)) (qy (destination s)) * qheight (imgSize s) div qheight (lsize s) + 1
    \<and> (0 \<le> i \<and> i < qwidth (imgSize s) \<and> 0 \<le> j \<and> j < qheight (imgSize s)
        \<and> spec_nominal (min (qx (origin s)) (qx (destination s)))
             (max (qx (origin s)) (qx (destination s))) (qwidth (imgSize s)) (qwidth (lsize s)) i
        \<and> spec_nominal (min (qy (origin s)) (qy (destination s)))
             (max (qy (origin s)) (qy (destination s))) (qheight (imgSize s)) (qheight (lsize s)) j
        \<longrightarrow> xo \<le> i \<and> i < xd \<and> yo \<le> j \<and> j < yd
          \<and> arr ! nat j ! nat i \<in> set (regionPixels arr (xo, xd, yo, yd)))
    \<and> regionPixels arr (xo, xd, yo, yd)
        = rect_pixels arr (nat xo) (min (nat xd) (nat (qwidth (imgSize s))))
            (nat yo) (min (nat yd) (nat (qheight (imgSize s))))
    \<and> meanRegion arr s = spec_mean (regionPixels arr (xo, xd, yo, yd))"
proof -
  let ?W = "qwidth (imgSize s)" and ?H = "qheight (imgSize s)"
  let ?lw = "qwidth (lsize s)" and ?lh = "qheight (lsize s)"
  let ?x0 = "min (qx (origin s)) (qx (destination s))"
  let ?x1 = "max (qx (origin s)) (qx (destination s))"
  let ?y0 = "min (qy (origin s)) (qy (destination s))"
  let ?y1 = "max (qy (origin s)) (qy (destination s))"
  let ?xo = "?x0 * ?W div ?lw" and ?xd = "?x1 * ?W div ?lw + 1"
  let ?yo = "?y0 * ?H div ?lh" and ?yd = "?y1 * ?H div ?lh + 1"
  have bounds: "regionBounds s = Inr (?xo, ?xd, ?yo, ?yd)"
    using nonneg pos by (intro regionBounds_nonneg) simp_all
  have lo: "0 \<le> ?xo" "0 \<le> ?yo" "0 \<le> ?xd" "0 \<le> ?yd"
    using nonneg pos by (simp_all add: pos_imp_zdiv_nonneg_iff add_nonneg_nonneg)
  have rect: "regionPixels arr (?xo, ?xd, ?yo, ?yd)
      = rect_pixels arr (nat ?xo) (min (nat ?xd) (nat ?W)) (nat ?yo) (min (nat ?yd) (nat ?H))"
    by (rule regionPixels_rect [OF shape lo(1) lo(3) lo(2) lo(4)])
  have mean: "meanRegion arr s = spec_mean (regionPixels arr (?xo, ?xd, ?yo, ?yd))"
    using bounds by (rule meanRegion_eq)
  have cover: "?xo \<le> i \<and> i < ?xd \<and> ?yo \<le> j \<and> j < ?yd
        \<and> arr ! nat j ! nat i \<in> set (regionPixels arr (?xo, ?xd, ?yo, ?yd))"
    if ij: "0 \<le> i" "i < ?W" "0 \<le> j" "j < ?H"
      and nx: "spec_nominal ?x0 ?x1 ?W ?lw i" and ny: "spec_nominal ?y0 ?y1 ?H ?lh j"
  proof -
    from pos(3) nx have cx: "?xo \<le> i \<and> i < ?xd" by (rule nominal_covered)
    from pos(4) ny have cy: "?yo \<le> j \<and> j < ?yd" by (rule nominal_covered)
    note nat_interval [OF lo(1) cx ij(2)] nat_interval [OF lo(2) cy ij(4)]
    then have "arr ! nat j ! nat i
        \<in> set (rect_pixels arr (nat ?xo) (min (nat ?xd) (nat ?W)) (nat ?yo) (min (nat ?yd) (nat ?H)))"
      by (rule rect_pixels_mem)
    with cx cy show ?thesis by (simp add: rect)
  qed
  from bounds rect mean cover show ?thesis by blast
qed

lemma computeRegion_covers_example:
  "regionBounds \<lparr>imgSize = \<lparr>qwidth = 2, qheight = 2\<rparr>, lsize = \<lparr>qwidth = 4, qheight = 4\<rparr>,
       origin = \<lparr>qx = 3, qy = 1\<rparr>, destination = \<lparr>qx = 2, qy = 3\<rparr>\<rparr> = Inr (1, 2, 0, 2)
   \<and> spec_nominal 2 3 2 4 1 \<and> spec_nominal 1 3 2 4 0
   \<and> regionPixels
        [[\<lparr>blue = 1, green = 1, red = 1, alpha = 255\<rparr>, \<lparr>blue = 2, green = 2, red = 2, alpha = 255\<rparr>],
         [\<lparr>blue = 3, green = 3, red = 3, alpha = 255\<rparr>, \<lparr>blue = 4, green = 4, red = 4, alpha = 255\<rparr>]]
        (1, 2, 0, 2)
      = [\<lparr>blue = 2, green = 2, red = 2, alpha = 255\<rparr>, \<lparr>blue = 4, green = 4, red = 4, alpha = 255\<rparr>]
   \<and> meanRegion
        [[\<lparr>blue = 1, green = 1, red = 1, alpha = 255\<rparr>, \<lparr>blue = 2, green = 2, red = 2, alpha = 255\<rparr>],
         [\<lparr>blue = 3, green = 3, red = 3, alpha = 255\<rparr>, \<lparr>blue = 4, green = 4, red = 4, alpha = 255\<rparr>]]
        \<lparr>imgSize = \<lparr>qwidth = 2, qheight = 2\<rparr>, lsize = \<lparr>qwidth = 4, qheight = 4\<rparr>,
         origin = \<lparr>qx = 3, qy = 1\<rparr>, destination = \<lparr>qx = 2, qy = 3\<rparr>\<rparr> = Inr (3, 3, 3)"
proof -
  let ?s = "\<lparr>imgSize = \<lparr>qwidth = 2, qheight = 2\<rparr>, lsize = \<lparr>qwidth = 4, qheight = 4\<rparr>,
       origin = \<lparr>qx = 3, qy = 1\<rparr>, destination = \<lparr>qx = 2, qy = 3\<rparr>\<rparr>"
  let ?img = "[[\<lparr>blue = 1, green = 1, red = 1, alpha = 255\<rparr>, \<lparr>blue = 2, green = 2, red = 2, alpha = 255\<rparr>],
         [\<lparr>blue = 3, green = 3, red = 3, alpha = 255\<rparr>, \<lparr>blue = 4, green = 4, red = 4, alpha = 255\<rparr>]]"
  have shape: "has_shape ?img (qwidth (imgSize ?s)) (qheight (imgSize ?s))"
    by (simp add: has_shape_def)
  have "\<exists>xo xd yo yd. regionBounds ?s = Inr (xo, xd, yo, yd)
      \<and> xo = 1 \<and> xd = 2 \<and> yo = 0 \<and> yd = 2
      \<and> regionPixels ?img (xo, xd, yo, yd) = rect_pixels ?img (nat xo) (min (nat xd) 2) (nat yo) (min (nat yd) 2)
      \<and> meanRegion ?img ?s = spec_mean (regionPixels ?img (xo, xd, yo, yd))"
    using computeRegion_covers [of ?s ?img 1 0, OF _ _ _ _ _ _ _ _ shape] by simp
  then have b: "regionBounds ?s = Inr (1, 2, 0, 2)"
    and r: "regionPixels ?img (1, 2, 0, 2) = rect_pixels ?img 1 2 0 2"
    and m: "meanRegion ?img ?s = spec_mean (regionPixels ?img (1, 2, 0, 2))"
    by auto
  have e: "rect_pixels ?img 1 2 0 2
      = [\<lparr>blue = 2, green = 2, red = 2, alpha = 255\<rparr>, \<lparr>blue = 4, green = 4, red = 4, alpha = 255\<rparr>]"
    by (simp add: rect_pixels_def upt_conv_Cons)
  have n: "spec_nominal 2 3 2 4 1 \<and> spec_nominal 1 3 2 4 0"
    by (simp add: spec_nominal_def)
  from b r m e n show ?thesis
    by (simp add: spec_mean_def)
qed

text \<open>
  Claim C7.  In region mode the selection rectangle is mapped to buffer coordinates by
  scaling with the ratio of image size to displayed size, the minimum corner rounded down
  and the maximum corner extended up by one pixel, so that the rectangle covers at least
  the nominally selected pixels, and the result is the unfiltered mean over that
  rectangle.

  The code misses this for a selection released past the left or the top edge of the
  label, whose minimum coordinate is negative: \<^verbatim>\<open>int\<close> truncates toward zero,
  which rounds a negative quotient up, and the negative slice index counts from the end
  of the buffer.  On a 2 by 2 image shown 4 by 4, the selection pressed at \<open>x = 3\<close>
  and released at \<open>x = -3\<close> is mapped to the columns \<open>-1..<2\<close> where rounding
  down gives \<open>-2\<close>, and the slice holds column 1 only: column 0, nominally selected,
  is left out of the mean.  On a 4 by 4 image shown 4 by 4, the selection pressed at
  \<open>x = 0\<close> and released at \<open>x = -3\<close> is mapped to the columns \<open>-3..<1\<close>, the
  slice is empty and the computation raises ValueError.
\<close>

theorem computeRegion_negative_release:
  "regionBounds \<lparr>imgSize = \<lparr>qwidth = 2, qheight = 2\<rparr>, lsize = \<lparr>qwidth = 4, qheight = 4\<rparr>,
       origin = \<lparr>qx = 3, qy = 3\<rparr>, destination = \<lparr>qx = - 3, qy = 0\<rparr>\<rparr> = Inr (- 1, 2, 0, 2)
   \<and> (- 3 * 2) div (4::int) = - 2
   \<and> spec_nominal (- 3) 3 2 4 0
   \<and> regionPixels
        [[\<lparr>blue = 1, green = 1, red = 1, alpha = 255\<rparr>, \<lparr>blue = 2, green = 2, red = 2, alpha = 255\<rparr>],
         [\<lparr>blue = 3, green = 3, red = 3, alpha = 255\<rparr>, \<lparr>blue = 4, green = 4, red = 4, alpha = 255\<rparr>]]
        (- 1, 2, 0, 2)
      = [\<lparr>blue = 2, green = 2, red = 2, alpha = 255\<rparr>, \<lparr>blue = 4, green = 4, red = 4, alpha = 255\<rparr>]
   \<and> \<lparr>blue = 1, green = 1, red = 1, alpha = 255\<rparr> \<notin> set (regionPixels
        [[\<lparr>blue = 1, green = 1, red = 1, alpha = 255\<rparr>, \<lparr>blue = 2, green = 2, red = 2, alpha = 255\<rparr>],
         [\<lparr>blue = 3, green = 3, red = 3, alpha = 255\<rparr>, \<lparr>blue = 4, green = 4, red = 4, alpha = 255\<rparr>]]
        (- 1, 2, 0, 2))
   \<and> meanRegion
        [[\<lparr>blue = 1, green = 1, red = 1, alpha = 255\<rparr>, \<lparr>blue = 2, green = 2, red = 2, alpha = 255\<rparr>],
         [\<lparr>blue = 3, green = 3, red = 3, alpha = 255\<rparr>, \<lparr>blue = 4, green = 4, red = 4, alpha = 255\<rparr>]]
        \<lparr>imgSize = \<lparr>qwidth = 2, qheight = 2\<rparr>, lsize = \<lparr>qwidth = 4, qheight = 4\<rparr>,
         origin = \<lparr>qx = 3, qy = 3\<rparr>, destination = \<lparr>qx = - 3, qy = 0\<rparr>\<rparr> = Inr (3, 3, 3)
   \<and> regionBounds \<lparr>imgSize = \<lparr>qwidth = 4, qheight = 4\<rparr>, lsize = \<lparr>qwidth = 4, qheight = 4\<rparr>,
       origin = \<lparr>qx = 0, qy = 1\<rparr>, destination = \<lparr>qx = - 3, qy = 0\<rparr>\<rparr> = Inr (- 3, 1, 0, 2)
   \<and> regionPixels (replicate 4 (replicate 4 \<lparr>blue = 5, green = 5, red = 5, alpha = 255\<rparr>))
        (- 3, 1, 0, 2) = []
   \<and> computeRegion qhue (replicate 4 (replicate 4 \<lparr>blue = 5, green = 5, red = 5, alpha = 255\<rparr>))
        \<lparr>imgSize = \<lparr>qwidth = 4, qheight = 4\<rparr>, lsize = \<lparr>qwidth = 4, qheight = 4\<rparr>,
         origin = \<lparr>qx = 0, qy = 1\<rparr>, destination = \<lparr>qx = - 3, qy = 0\<rparr>\<rparr> = Inl ValueError"
  by (simp add: regionBounds_def py_int_truediv_def trunc_quot_def spec_nominal_def
      regionPixels_def py_slice_def meanRegion_def computeRegion_def np_mean_int_def
      np_quot_int_def Let_def)

text \<open>
  Claim C10.  For every selection whose origin and destination lie within the displayed
  image (\<open>0 \<le> x\<close> below the displayed width, \<open>0 \<le> y\<close> below the displayed height,
  positive image and display dimensions), the mapped rectangle is not empty: \<open>xd \<ge> xo + 1\<close>
  and \<open>yd \<ge> yo + 1\<close> with \<open>xo\<close> below the image width and \<open>yo\<close> below the image
  height.  So even a click with origin equal to destination selects at least one pixel,
  the region mean is defined and a value is emitted.
\<close>

theorem computeRegion_nonempty:
  assumes org: "0 \<le> qx (origin s)" "qx (origin s) < qwidth (lsize s)"
      "0 \<le> qy (origin s)" "qy (origin s) < qheight (lsize s)"
    and dst: "0 \<le> qx (destination s)" "qx (destination s) < qwidth (lsize s)"
      "0 \<le> qy (destination s)" "qy (destination s) < qheight (lsize s)"
    and pos: "0 < qwidth (imgSize s)" "0 < qheight (imgSize s)"
    and shape: "has_shape arr (qwidth (imgSize s)) (qheight (imgSize s))"
  shows "\<exists>xo xd yo yd.
      regionBounds s = Inr (xo, xd, yo, yd)
    \<and> 0 \<le> xo \<and> xo + 1 \<le> xd \<and> xo < qwidth (imgSize s)
    \<and> 0 \<le> yo \<and> yo + 1 \<le> yd \<and> yo < qheight (imgSize s)
    \<and> regionPixels arr (xo, xd, yo, yd) \<noteq> []
    \<and> (\<exists>m. meanRegion arr s = Inr m)
    \<and> (\<exists>v. computeRegion qhue arr s = Inr v)"
proof -
  let ?W = "qwidth (imgSize s)" and ?H = "qheight (imgSize s)"
  let ?lw = "qwidth (lsize s)" and ?lh = "qheight (lsize s)"
  let ?x0 = "min (qx (origin s)) (qx (destination s))"
  let ?x1 = "max (qx (origin s)) (qx (destination s))"
  let ?y0 = "min (qy (origin s)) (qy (destination s))"
  let ?y1 = "max (qy (origin s)) (qy (destination s))"
  let ?xo = "?x0 * ?W div ?lw" and ?xd = "?x1 * ?W div ?lw + 1"
  let ?yo = "?y0 * ?H div ?lh" and ?yd = "?y1 * ?H div ?lh + 1"
  from org dst have lpos: "0 < ?lw" "0 < ?lh" by simp_all
  from org dst have mins: "0 \<le> ?x0" "?x0 < ?lw" "0 \<le> ?y0" "?y0 < ?lh" by simp_all
  have bounds: "regionBounds s = Inr (?xo, ?xd, ?yo, ?yd)"
    using org dst pos lpos by (intro regionBounds_nonneg) simp_all
  have xo0: "0 \<le> ?xo" and yo0: "0 \<le> ?yo"
    using mins pos lpos by (simp_all add: pos_imp_zdiv_nonneg_iff)
  have xoW: "?xo < ?W" using mins(1,2) pos(1) by (rule div_less_bound)
  have yoH: "?yo < ?H" using mins(3,4) pos(2) by (rule div_less_bound)
  have "?x0 * ?W \<le> ?x1 * ?W" using pos by (intro mult_right_mono) simp_all
  with lpos have xd: "?xo + 1 \<le> ?xd" by (simp add: zdiv_mono1)
  have "?y0 * ?H \<le> ?y1 * ?H" using pos by (intro mult_right_mono) simp_all
  with lpos have yd: "?yo + 1 \<le> ?yd" by (simp add: zdiv_mono1)
  from xo0 xd have xd0: "0 \<le> ?xd" by linarith
  from yo0 yd have yd0: "0 \<le> ?yd" by linarith
  have rect: "regionPixels arr (?xo, ?xd, ?yo, ?yd)
      = rect_pixels arr (nat ?xo) (min (nat ?xd) (nat ?W)) (nat ?yo) (min (nat ?yd) (nat ?H))"
    by (rule regionPixels_rect [OF shape xo0 xd0 yo0 yd0])
  from xo0 xd xoW have cx: "?xo \<le> ?xo \<and> ?xo < ?xd" by linarith
  from yo0 yd yoH have cy: "?yo \<le> ?yo \<and> ?yo < ?yd" by linarith
  note nat_interval [OF xo0 cx xoW] nat_interval [OF yo0 cy yoH]
  then have "arr ! nat ?yo ! nat ?xo
      \<in> set (rect_pixels arr (nat ?xo) (min (nat ?xd) (nat ?W)) (nat ?yo) (min (nat ?yd) (nat ?H)))"
    by (rule rect_pixels_mem)
  then have ne: "regionPixels arr (?xo, ?xd, ?yo, ?yd) \<noteq> []"
    unfolding rect by auto
  have "meanRegion arr s = spec_mean (regionPixels arr (?xo, ?xd, ?yo, ?yd))"
    using bounds by (rule meanRegion_eq)
  with ne obtain m where m: "meanRegion arr s = Inr m"
    by (simp add: spec_mean_def)
  then have v: "\<exists>v. computeRegion qhue arr s = Inr v"
    by (cases m) (simp add: computeRegion_def)
  from bounds xo0 xd xoW yo0 yd yoH ne m v show ?thesis by blast
qed

theorem computeRegion_nonempty_witness:
  "regionBounds \<lparr>imgSize = \<lparr>qwidth = 2, qheight = 2\<rparr>, lsize = \<lparr>qwidth = 4, qheight = 4\<rparr>,
       origin = \<lparr>qx = 3, qy = 1\<rparr>, destination = \<lparr>qx = 3, qy = 1\<rparr>\<rparr> = Inr (1, 2, 0, 1)
   \<and> regionPixels
        [[\<lparr>blue = 128, green = 0, red = 128, alpha = 255\<rparr>, \<lparr>blue = 7, green = 7, red = 7, alpha = 255\<rparr>],
         [\<lparr>blue = 128, green = 0, red = 128, alpha = 255\<rparr>, \<lparr>blue = 9, green = 9, red = 9, alpha = 255\<rparr>]]
        (1, 2, 0, 1) \<noteq> []
   \<and> computeRegion (\<lambda>r g b. 0)
        [[\<lparr>blue = 128, green = 0, red = 128, alpha = 255\<rparr>, \<lparr>blue = 7, green = 7, red = 7, alpha = 255\<rparr>],
         [\<lparr>blue = 128, green = 0, red = 128, alpha = 255\<rparr>, \<lparr>blue = 9, green = 9, red = 9, alpha = 255\<rparr>]]
        \<lparr>imgSize = \<lparr>qwidth = 2, qheight = 2\<rparr>, lsize = \<lparr>qwidth = 4, qheight = 4\<rparr>,
         origin = \<lparr>qx = 3, qy = 1\<rparr>, destination = \<lparr>qx = 3, qy = 1\<rparr>\<rparr> = Inr 61"
proof -
  let ?s = "\<lparr>imgSize = \<lparr>qwidth = 2, qheight = 2\<rparr>, lsize = \<lparr>qwidth = 4, qheight = 4\<rparr>,
       origin = \<lparr>qx = 3, qy = 1\<rparr>, destination = \<lparr>qx = 3, qy = 1\<rparr>\<rparr>"
  let ?img = "[[\<lparr>blue = 128, green = 0, red = 128, alpha = 255\<rparr>, \<lparr>blue = 7, green = 7, red = 7, alpha = 255\<rparr>],
         [\<lparr>blue = 128, green = 0, red = 128, alpha = 255\<rparr>, \<lparr>blue = 9, green = 9, red = 9, alpha = 255\<rparr>]]"
  have shape: "has_shape ?img (qwidth (imgSize ?s)) (qheight (imgSize ?s))"
    by (simp add: has_shape_def)
  have b: "regionBounds ?s = Inr (1, 2, 0, 1)"
    by (simp add: regionBounds_def py_int_truediv_def trunc_quot_def)
  have "\<exists>xo xd yo yd. regionBounds ?s = Inr (xo, xd, yo, yd)
      \<and> regionPixels ?img (xo, xd, yo, yd) \<noteq> []"
    using computeRegion_nonempty [of ?s ?img "\<lambda>r g b. 0", OF _ _ _ _ _ _ _ _ _ _ shape]
    by simp blast
  with b have ne: "regionPixels ?img (1, 2, 0, 1) \<noteq> []" by auto
  have v: "computeRegion (\<lambda>r g b. 0) ?img ?s = Inr 61"
    by (simp add: computeRegion_def meanRegion_def b regionPixels_def py_slice_def
        np_mean_int_def np_quot_int_def trunc_quot_def Let_def QColor_hue_def hueToScale_def)
  from b ne v show ?thesis by simp
qed

section \<open>Achromatic means\<close>

lemma uint_byte_le: "uint (w :: 8 word) \<le> 255"
  using uint_bounded [of w] by simp

lemma sum_bytes_le: "sum_list (map (\<lambda>p. uint (ch p :: 8 word)) ps) \<le> 255 * int (length ps)"
proof (induction ps)
  case Nil
  show ?case by simp
next
  case (Cons p ps)
  with uint_byte_le [of "ch p"] show ?case by simp
qed

lemma sum_red_counted:
  "sum_list (map (\<lambda>p. uint (red p)) (filter (\<lambda>p. maxc p < thr) ps))
   = sum_list (map (\<lambda>p. uint (red p)) (filter (\<lambda>p. maxc p < thr \<and> red p \<noteq> 0) ps))"
  by (induction ps) simp_all

lemma div_le_bound:
  fixes s n :: int
  assumes "0 < n" "s \<le> 255 * n"
  shows "s div n \<le> 255"
proof -
  from assms have "s div n \<le> 255 * n div n" by (intro zdiv_mono1) simp_all
  with assms show ?thesis by simp
qed

lemma meanAll_red_range:
  assumes "meanAll arr = Inr (r, g, b)"
  shows "0 \<le> r \<and> r \<le> 255"
proof -
  let ?thr = "code_threshold arr"
  let ?n = "int (length (counted ?thr arr))"
  let ?s = "sum_list (map (\<lambda>p. uint (red p)) (spec_candidates ?thr arr))"
  from assms have n: "0 < ?n" and r: "r = ?s div ?n"
    by (auto simp: meanAll_eq Let_def split: if_splits)
  have "?s = sum_list (map (\<lambda>p. uint (red p)) (counted ?thr arr))"
    by (simp add: spec_candidates_def counted_def sum_red_counted)
  then have "?s \<le> 255 * ?n" by (simp add: sum_bytes_le)
  with n have "?s div ?n \<le> 255" by (rule div_le_bound)
  moreover from n have "0 \<le> ?s div ?n"
    by (simp add: pos_imp_zdiv_nonneg_iff sum_uint_nonneg)
  ultimately show ?thesis by (simp add: r)
qed

lemma spec_mean_red_range:
  assumes "spec_mean ps = Inr (r, g, b)"
  shows "0 \<le> r \<and> r \<le> 255"
proof -
  from assms have ne: "ps \<noteq> []" and r: "r = sum_list (map (\<lambda>p. uint (red p)) ps) div int (length ps)"
    by (auto simp: spec_mean_def split: if_splits)
  from ne have n: "0 < int (length ps)" by simp
  from n sum_bytes_le have "sum_list (map (\<lambda>p. uint (red p)) ps) div int (length ps) \<le> 255"
    by (rule div_le_bound)
  moreover from n have "0 \<le> sum_list (map (\<lambda>p. uint (red p)) ps) div int (length ps)"
    by (simp add: pos_imp_zdiv_nonneg_iff sum_uint_nonneg)
  ultimately show ?thesis by (simp add: r)
qed

lemma meanRegion_red_range:
  assumes "meanRegion arr s = Inr (r, g, b)"
  shows "0 \<le> r \<and> r \<le> 255"
proof (cases "regionBounds s")
  case (Inl e)
  with assms show ?thesis by (simp add: meanRegion_def)
next
  case (Inr bounds)
  with assms have "spec_mean (regionPixels arr bounds) = Inr (r, g, b)"
    by (simp add: meanRegion_eq)
  then show ?thesis by (rule spec_mean_red_range)
qed

lemma gray_hue: "0 \<le> g \<Longrightarrow> g \<le> 255 \<Longrightarrow> hueToScale (QColor_hue qhue g g g) = 61"
  by (simp add: QColor_hue_def hueToScale_def)

text \<open>
  Claim C8, as stated: for any mean RGB triple with three equal channels the hue
  extraction yields 0 and therefore \<open>hueToScale\<close> yields the scale value 60.

  The hue the code reads for such a triple is Qt's \<open>-1\<close>, and
  \<open>hueToScale (-1) = 61\<close>: an image of the single pixel \<open>(128, 128, 128)\<close> has the
  mean \<open>(128, 128, 128)\<close> and the emitted value 61.
\<close>

theorem gray_scale_counterexample:
  "meanAll [[\<lparr>blue = 128, green = 128, red = 128, alpha = 255\<rparr>]] = Inr (128, 128, 128)
   \<and> QColor_hue (\<lambda>r g b. 0) 128 128 128 = - 1
   \<and> QColor_hue (\<lambda>r g b. 0) 128 128 128 \<noteq> 0
   \<and> computeAll (\<lambda>r g b. 0) [[\<lparr>blue = 128, green = 128, red = 128, alpha = 255\<rparr>]] = Inr 61
   \<and> computeAll (\<lambda>r g b. 0) [[\<lparr>blue = 128, green = 128, red = 128, alpha = 255\<rparr>]] \<noteq> Inr 60"
  by (simp add: computeAll_def meanAll_eq code_threshold_def counted_def spec_candidates_def
      maxc_def Let_def QColor_hue_def hueToScale_def)

text \<open>
  Claim C8, amended: for any mean RGB triple with three equal channels the hue
  extraction yields \<open>-1\<close>, Qt's hue of an achromatic colour, and \<open>hueToScale\<close>
  yields the scale value 61, in whole-image mode and in region mode alike.
\<close>

theorem gray_mean_scale:
  "(0 \<le> g \<and> g \<le> 255 \<longrightarrow>
      QColor_hue qhue g g g = - 1 \<and> hueToScale (QColor_hue qhue g g g) = 61)
   \<and> (meanAll arr = Inr (g, g, g) \<longrightarrow> computeAll qhue arr = Inr 61)
   \<and> (meanRegion arr s = Inr (g, g, g) \<longrightarrow> computeRegion qhue arr s = Inr 61)"
proof (intro conjI impI)
  assume "0 \<le> g \<and> g \<le> 255"
  then show "QColor_hue qhue g g g = - 1" by (simp add: QColor_hue_def)
  then show "hueToScale (QColor_hue qhue g g g) = 61" by (simp add: hueToScale_def)
next
  assume m: "meanAll arr = Inr (g, g, g)"
  then have "0 \<le> g \<and> g \<le> 255" by (rule meanAll_red_range)
  with m show "computeAll qhue arr = Inr 61" by (simp add: computeAll_def gray_hue)
next
  assume m: "meanRegion arr s = Inr (g, g, g)"
  then have "0 \<le> g \<and> g \<le> 255" by (rule meanRegion_red_range)
  with m show "computeRegion qhue arr s = Inr 61" by (simp add: computeRegion_def gray_hue)
qed

theorem gray_mean_scale_witness:
  "meanAll [[\<lparr>blue = 128, green = 128, red = 128, alpha = 255\<rparr>]] = Inr (128, 128, 128)
   \<and> computeAll (\<lambda>r g b. 0) [[\<lparr>blue = 128, green = 128, red = 128, alpha = 255\<rparr>]] = Inr 61
   \<and> hueToScale (QColor_hue (\<lambda>r g b. 0) 128 128 128) = 61"
proof -
  have m: "meanAll [[\<lparr>blue = 128, green = 128, red = 128, alpha = 255\<rparr>]] = Inr (128, 128, 128)"
    by (simp add: meanAll_eq code_threshold_def counted_def spec_candidates_def maxc_def Let_def)
  note inst = gray_mean_scale [of 128 "\<lambda>r g b. 0"
      "[[\<lparr>blue = 128, green = 128, red = 128, alpha = 255\<rparr>]]" undefined]
  have range: "(0::int) \<le> 128 \<and> (128::int) \<le> 255" by simp
  from inst range have "hueToScale (QColor_hue (\<lambda>r g b. 0) 128 128 128) = 61"
    by blast
  moreover from inst m
  have "computeAll (\<lambda>r g b. 0) [[\<lparr>blue = 128, green = 128, red = 128, alpha = 255\<rparr>]] = Inr 61"
    by blast
  ultimately show ?thesis using m by blast
qed

section \<open>The log\<close>

lemma digit_char_digit: "d < 10 \<Longrightarrow> digit_char d \<in> set ''0123456789''"
  unfolding digit_char_def by (rule nth_mem) simp

lemma str_nat_digits: "set (str_nat n) \<subseteq> set ''0123456789''"
proof (induction n rule: str_nat.induct)
  case (1 n)
  show ?case
  proof (cases "n < 10")
    case True
    then show ?thesis
      using digit_char_digit [of n] by (subst str_nat.simps) simp
  next
    case False
    with 1 have "set (str_nat (n div 10)) \<subseteq> set ''0123456789''" by simp
    moreover have "digit_char (n mod 10) \<in> set ''0123456789''"
      by (rule digit_char_digit) simp
    ultimately show ?thesis
      using False by (subst str_nat.simps) simp
  qed
qed

lemma str_int_no_newline: "CHR 0x0A \<notin> set (str_int v)"
  using str_nat_digits [of "nat v"] str_nat_digits [of "nat (- v)"]
  by (auto simp: str_int_def)

lemma lt10_cases:
  fixes d :: nat
  assumes "d < 10"
  shows "d = 0 \<or> d = 1 \<or> d = 2 \<or> d = 3 \<or> d = 4 \<or> d = 5 \<or> d = 6 \<or> d = 7 \<or> d = 8 \<or> d = 9"
  using assms by arith

lemma digit_value_digit_char: "d < 10 \<Longrightarrow> digit_value (digit_char d) = d"
  using lt10_cases [of d] by (auto simp: digit_value_def digit_char_def)

lemma digit_char_zero: "d < 10 \<Longrightarrow> digit_char d = CHR ''0'' \<longleftrightarrow> d = 0"
  using lt10_cases [of d] by (auto simp: digit_char_def)

lemma dec_value_snoc: "dec_value (ds @ [c]) = 10 * dec_value ds + digit_value c"
  by (simp add: dec_value_def)

lemma dec_value_str_nat: "dec_value (str_nat n) = n"
proof (induction n rule: str_nat.induct)
  case (1 n)
  show ?case
  proof (cases "n < 10")
    case True
    then show ?thesis
      by (subst str_nat.simps) (simp add: dec_value_def digit_value_digit_char)
  next
    case False
    with 1 have "dec_value (str_nat (n div 10)) = n div 10" by simp
    with False show ?thesis
      by (subst str_nat.simps) (simp add: dec_value_snoc digit_value_digit_char)
  qed
qed

lemma str_nat_nonempty: "str_nat n \<noteq> []"
  by (subst str_nat.simps) simp

lemma str_nat_zero: "str_nat 0 = ''0''"
  by (subst str_nat.simps) (simp add: digit_char_def)

lemma str_nat_no_leading_zero: "0 < n \<Longrightarrow> hd (str_nat n) \<noteq> CHR ''0''"
proof (induction n rule: str_nat.induct)
  case (1 n)
  show ?case
  proof (cases "n < 10")
    case True
    with 1(2) show ?thesis
      by (subst str_nat.simps) (simp add: digit_char_zero)
  next
    case False
    then have "0 < n div 10" by simp
    with 1(1) False have "hd (str_nat (n div 10)) \<noteq> CHR ''0''" by simp
    with False show ?thesis
      by (subst str_nat.simps) (simp add: str_nat_nonempty)
  qed
qed

lemma str_nat_canonical: "hd (str_nat n) = CHR ''0'' \<Longrightarrow> str_nat n = ''0''"
  using str_nat_no_leading_zero [of n] str_nat_zero by (cases "n = 0") auto


lemma line_count_append: "line_count (s @ t) = line_count s + line_count t"
  by (simp add: line_count_def)

lemma line_count_none: "CHR 0x0A \<notin> set s \<Longrightarrow> line_count s = 0"
  by (auto simp: line_count_def filter_empty_conv)

lemma str_int_sign: "str_int v = (if v < 0 then ''-'' else []) @ str_nat (nat \<bar>v\<bar>)"
  by (simp add: str_int_def)

text \<open>
  Claim C9, as stated: each successful analysis appends exactly one line of the form
  \<^verbatim>\<open><file-path> <scale-value>\n\<close> to the log and leaves what was written before
  unchanged; a failed analysis writes nothing to the log.

  The path is written as it is: for a file whose path holds a newline the appended text
  is two lines.
\<close>

theorem logValue_path_newline_counterexample:
  "run (\<lambda>r g b. 0) \<lparr>thread_arr = [[\<lparr>blue = 128, green = 128, red = 128, alpha = 255\<rparr>]], thread_sel = None\<rparr> = Inr 61
   \<and> ozone_log (analysis (\<lambda>r g b. 0) \<lparr>currentFile = ''a'' @ [CHR 0x0A] @ ''b.jpg'', ozone_log = []\<rparr>
        \<lparr>thread_arr = [[\<lparr>blue = 128, green = 128, red = 128, alpha = 255\<rparr>]], thread_sel = None\<rparr>)
      = ''a'' @ [CHR 0x0A] @ ''b.jpg 61'' @ [CHR 0x0A]
   \<and> line_count (ozone_log (analysis (\<lambda>r g b. 0) \<lparr>currentFile = ''a'' @ [CHR 0x0A] @ ''b.jpg'', ozone_log = []\<rparr>
        \<lparr>thread_arr = [[\<lparr>blue = 128, green = 128, red = 128, alpha = 255\<rparr>]], thread_sel = None\<rparr>)) = 2"
  by (simp add: run_def computeAll_def meanAll_eq code_threshold_def counted_def
      spec_candidates_def maxc_def Let_def QColor_hue_def hueToScale_def analysis_def
      logValue_def str_int_def str_nat.simps digit_char_def line_count_def)

text \<open>
  Claim C9, amended: each successful analysis appends the text
  \<^verbatim>\<open><file-path> <scale-value>\n\<close> to the log and leaves what was written before
  unchanged, where the scale value is written in decimal (a minus sign if negative, then
  its digits without leading zero); the appended text is exactly one line when the path
  holds no newline; a failed analysis writes nothing to the log.
\<close>

theorem analysis_appends_line:
  "(run qhue thread = Inr v \<longrightarrow>
      ozone_log (analysis qhue self thread)
        = ozone_log self @ currentFile self @ '' '' @ str_int v @ [CHR 0x0A]
      \<and> currentFile (analysis qhue self thread) = currentFile self)
   \<and> (run qhue thread = Inl e \<longrightarrow> analysis qhue self thread = self)
   \<and> str_int v = (if v < 0 then ''-'' else []) @ str_nat (nat \<bar>v\<bar>)
   \<and> str_nat (nat \<bar>v\<bar>) \<noteq> []
   \<and> set (str_nat (nat \<bar>v\<bar>)) \<subseteq> set ''0123456789''
   \<and> dec_value (str_nat (nat \<bar>v\<bar>)) = nat \<bar>v\<bar>
   \<and> (hd (str_nat (nat \<bar>v\<bar>)) = CHR ''0'' \<longrightarrow> str_nat (nat \<bar>v\<bar>) = ''0'')
   \<and> (CHR 0x0A \<notin> set (currentFile self) \<longrightarrow>
        line_count (currentFile self @ '' '' @ str_int v @ [CHR 0x0A]) = 1)"
proof (intro conjI impI)
  assume "run qhue thread = Inr v"
  then show "ozone_log (analysis qhue self thread)
      = ozone_log self @ currentFile self @ '' '' @ str_int v @ [CHR 0x0A]"
    and "currentFile (analysis qhue self thread) = currentFile self"
    by (simp_all add: analysis_def logValue_def)
next
  assume "run qhue thread = Inl e"
  then show "analysis qhue self thread = self"
    by (simp add: analysis_def)
next
  show "str_int v = (if v < 0 then ''-'' else []) @ str_nat (nat \<bar>v\<bar>)"
    by (rule str_int_sign)
  show "str_nat (nat \<bar>v\<bar>) \<noteq> []"
    by (rule str_nat_nonempty)
  show "set (str_nat (nat \<bar>v\<bar>)) \<subseteq> set ''0123456789''"
    by (rule str_nat_digits)
  show "dec_value (str_nat (nat \<bar>v\<bar>)) = nat \<bar>v\<bar>"
    by (rule dec_value_str_nat)
next
  assume "hd (str_nat (nat \<bar>v\<bar>)) = CHR ''0''"
  then show "str_nat (nat \<bar>v\<bar>) = ''0''"
    by (rule str_nat_canonical)
next
  assume "CHR 0x0A \<notin> set (currentFile self)"
  then have "line_count (currentFile self) = 0"
    by (rule line_count_none)
  moreover have "line_count (str_int v) = 0"
    using str_int_no_newline by (rule line_count_none)
  ultimately show "line_count (currentFile self @ '' '' @ str_int v @ [CHR 0x0A]) = 1"
    by (simp add: line_count_def)
qed

theorem analysis_appends_line_witness:
  "run (\<lambda>r g b. 0) \<lparr>thread_arr = [[\<lparr>blue = 128, green = 128, red = 128, alpha = 255\<rparr>]], thread_sel = None\<rparr> = Inr 61
   \<and> ozone_log (analysis (\<lambda>r g b. 0) \<lparr>currentFile = ''a.jpg'', ozone_log = ''b.jpg 12'' @ [CHR 0x0A]\<rparr>
        \<lparr>thread_arr = [[\<lparr>blue = 128, green = 128, red = 128, alpha = 255\<rparr>]], thread_sel = None\<rparr>)
      = ''b.jpg 12'' @ [CHR 0x0A] @ ''a.jpg 61'' @ [CHR 0x0A]
   \<and> line_count (''a.jpg 61'' @ [CHR 0x0A]) = 1
   \<and> dec_value (str_int 61) = 61
   \<and> run (\<lambda>r g b. 0) \<lparr>thread_arr = [[\<lparr>blue = 0, green = 100, red = 0, alpha = 255\<rparr>]], thread_sel = None\<rparr> = Inl ValueError
   \<and> ozone_log (analysis (\<lambda>r g b. 0) \<lparr>currentFile = ''a.jpg'', ozone_log = ''b.jpg 12'' @ [CHR 0x0A]\<rparr>
        \<lparr>thread_arr = [[\<lparr>blue = 0, green = 100, red = 0, alpha = 255\<rparr>]], thread_sel = None\<rparr>)
      = ''b.jpg 12'' @ [CHR 0x0A]"
proof -
  let ?gray = "\<lparr>thread_arr = [[\<lparr>blue = 128, green = 128, red = 128, alpha = 255\<rparr>]], thread_sel = None\<rparr>"
  let ?green = "\<lparr>thread_arr = [[\<lparr>blue = 0, green = 100, red = 0, alpha = 255\<rparr>]], thread_sel = None\<rparr>"
  let ?w = "\<lparr>currentFile = ''a.jpg'', ozone_log = ''b.jpg 12'' @ [CHR 0x0A]\<rparr>"
  have ok: "run (\<lambda>r g b. 0) ?gray = Inr 61"
    by (simp add: run_def computeAll_def meanAll_eq code_threshold_def counted_def
        spec_candidates_def maxc_def Let_def QColor_hue_def hueToScale_def)
  have bad: "run (\<lambda>r g b. 0) ?green = Inl ValueError"
    by (simp add: run_def computeAll_def meanAll_eq code_threshold_def counted_def
        spec_candidates_def maxc_def Let_def)
  have s61: "str_int 61 = ''61''"
    by (simp add: str_int_def str_nat.simps digit_char_def)
  have path: "CHR 0x0A \<notin> set (currentFile ?w)"
    by simp
  note good = analysis_appends_line [of "\<lambda>r g b. 0" ?gray 61 ?w]
  note fail = analysis_appends_line [of "\<lambda>r g b. 0" ?green 0 ?w ValueError]
  from good ok have "ozone_log (analysis (\<lambda>r g b. 0) ?w ?gray)
      = ozone_log ?w @ currentFile ?w @ '' '' @ str_int 61 @ [CHR 0x0A]"
    by blast
  then have appended: "ozone_log (analysis (\<lambda>r g b. 0) ?w ?gray)
      = ''b.jpg 12'' @ [CHR 0x0A] @ ''a.jpg 61'' @ [CHR 0x0A]"
    by (simp add: s61)
  from good path have "line_count (currentFile ?w @ '' '' @ str_int 61 @ [CHR 0x0A]) = 1"
    by blast
  then have one: "line_count (''a.jpg 61'' @ [CHR 0x0A]) = 1"
    by (simp add: s61)
  from good have "dec_value (str_nat (nat \<bar>61\<bar>)) = nat \<bar>61\<bar>"
    by blast
  then have dec: "dec_value (str_int 61) = 61"
    by (simp add: str_int_def)
  from fail bad have "analysis (\<lambda>r g b. 0) ?w ?green = ?w"
    by blast
  then have kept: "ozone_log (analysis (\<lambda>r g b. 0) ?w ?green) = ''b.jpg 12'' @ [CHR 0x0A]"
    by simp
  from ok appended one dec bad kept show ?thesis by blast
qed

end
